theory Spec2Isabelle
  imports Main "HOL-Library.Multiset" "HOL-Library.Word"
begin

section \<open>DataTable: a shallow embedding of src/components/admin/shared/DataTable.tsx\<close>

text \<open>
  The component is a React function component. One invocation of the function is modelled
  as a pure function of its props and of the value of the \<open>currentPage\<close> state cell; it
  returns the rendered tree together with the value the state cell holds once the invocation
  has finished (\<open>setCurrentPage\<close> called while rendering stores the new value for the
  following invocation; it does not change the \<open>currentPage\<close> constant of the running one).
  A render pass is the invocation together with the re-invocation that React makes when
  the state was updated while rendering. Page numbers, indices and \<open>pageSize\<close> are
  JavaScript numbers holding integers and are modelled as \<open>int\<close>.
\<close>

subsection \<open>Values, rows and columns\<close>

text \<open>
  Property values of a row. A number is an integer read by \<open>sint\<close> from a 54-bit word,
  that is an integer from \<open>-2^53\<close> to \<open>2^53 - 1\<close>: each of them is a JavaScript number
  and \<open>String\<close> prints it in plain decimal digits. \<open>JFunction t\<close> is a function whose
  \<open>toString\<close> gives the text \<open>t\<close>; \<open>JObject\<close> is an object that has no \<open>toString\<close> other
  than the one of \<open>Object.prototype\<close> and no \<open>Symbol.toStringTag\<close>.
\<close>

datatype jsval =
    JUndefined | JNull | JBool bool | JNum "54 word" | JStr string
  | JFunction string | JObject

text \<open>
  A row is an object with data properties: its own ones, and the ones of its prototype
  chain (nearest prototype first).
\<close>

record row =
  own_props :: "(string \<times> jsval) list"
  proto_props :: "(string \<times> jsval) list"

text \<open>
  \<open>row[key]\<close>: an own property first, then an inherited one; reading a property that
  the object has neither way yields \<open>undefined\<close>.
\<close>

definition js_get :: "row \<Rightarrow> string \<Rightarrow> jsval" where
  "js_get r k =
     (case map_of (own_props r) k of
        Some v \<Rightarrow> v
      | None \<Rightarrow> (case map_of (proto_props r) k of Some v \<Rightarrow> v | None \<Rightarrow> JUndefined))"

text \<open>
  The properties every ordinary object inherits from \<open>Object.prototype\<close>. The text of a
  built-in function is written as V8 prints it; \<open>__proto__\<close> reads as the prototype
  object itself.
\<close>

definition native_function :: "string \<Rightarrow> jsval" where
  "native_function name = JFunction (''function '' @ name @ ''() { [native code] }'')"

definition object_prototype :: "(string \<times> jsval) list" where
  "object_prototype =
     [(''constructor'', native_function ''Object''),
      (''__defineGetter__'', native_function ''__defineGetter__''),
      (''__defineSetter__'', native_function ''__defineSetter__''),
      (''hasOwnProperty'', native_function ''hasOwnProperty''),
      (''__lookupGetter__'', native_function ''__lookupGetter__''),
      (''__lookupSetter__'', native_function ''__lookupSetter__''),
      (''isPrototypeOf'', native_function ''isPrototypeOf''),
      (''propertyIsEnumerable'', native_function ''propertyIsEnumerable''),
      (''toString'', native_function ''toString''),
      (''valueOf'', native_function ''valueOf''),
      (''__proto__'', JObject),
      (''toLocaleString'', native_function ''toLocaleString'')]"

text \<open>An object literal, or an object parsed from JSON, with the given own properties.\<close>

definition plain_object :: "(string \<times> jsval) list \<Rightarrow> row" where
  "plain_object ps = \<lparr> own_props = ps, proto_props = object_prototype \<rparr>"

datatype react_node = Text string | Elem string "react_node list"

datatype accessor = Field string | Fn "row \<Rightarrow> react_node"

record column =
  header :: string
  accessor :: accessor
  className :: "string option"
  hideOnMobile :: "bool option"
  mobileHighlight :: "bool option"

text \<open>An optional boolean used as a condition: \<open>undefined\<close> is falsy.\<close>

fun truthy :: "bool option \<Rightarrow> bool" where
  "truthy None = False"
| "truthy (Some b) = b"

text \<open>A destructuring default \<open>x = d\<close>: the default is taken when the prop is not given.\<close>

fun default_to :: "'a \<Rightarrow> 'a option \<Rightarrow> 'a" where
  "default_to d None = d"
| "default_to d (Some v) = v"

record props =
  columns :: "column list"
  data :: "row list"
  loading :: "bool option"
  emptyMessage :: "string option"
  onRowClick :: bool
  mobileCardView :: "bool option"
  pagination :: "bool option"
  pageSize :: "int option"

text \<open>
  \<open>onRowClick\<close> records whether the caller supplied a handler; the handler itself acts
  outside the component.
\<close>

definition p_loading :: "props \<Rightarrow> bool" where
  "p_loading p = default_to False (loading p)"

definition p_emptyMessage :: "props \<Rightarrow> string" where
  "p_emptyMessage p = default_to ''No data available'' (emptyMessage p)"

definition p_mobileCardView :: "props \<Rightarrow> bool" where
  "p_mobileCardView p = default_to True (mobileCardView p)"

definition p_pagination :: "props \<Rightarrow> bool" where
  "p_pagination p = default_to False (pagination p)"

definition p_pageSize :: "props \<Rightarrow> int" where
  "p_pageSize p = default_to 10 (pageSize p)"

subsection \<open>Pagination calculations\<close>

text \<open>
  \<open>Math.ceil(a / b)\<close> on integers \<open>a\<close> and \<open>b \<noteq> 0\<close>: HOL's \<open>div\<close> on \<open>int\<close> rounds
  down, so the ceiling is the negated floor of the negated quotient. For \<open>b = 0\<close>
  JavaScript yields \<open>NaN\<close> or \<open>Infinity\<close>, which \<open>int\<close> does not have, and \<open>ceil_div a 0\<close>
  is 0: the statements below that depend on \<open>totalPages\<close> either assume
  \<open>pageSize \<noteq> 0\<close> or assume \<open>totalPages > 0\<close>, which in this model implies it.
\<close>

definition ceil_div :: "int \<Rightarrow> int \<Rightarrow> int" where
  "ceil_div a b = - ((- a) div b)"

definition totalPages :: "props \<Rightarrow> int" where
  "totalPages p = ceil_div (int (length (data p))) (p_pageSize p)"

definition startIndex :: "props \<Rightarrow> int \<Rightarrow> int" where
  "startIndex p currentPage = (currentPage - 1) * p_pageSize p"

definition endIndex :: "props \<Rightarrow> int \<Rightarrow> int" where
  "endIndex p currentPage = startIndex p currentPage + p_pageSize p"

text \<open>
  \<open>Array.prototype.slice(start, end)\<close>: a negative bound counts from the end of the
  array, both bounds are clamped to \<open>[0, length]\<close>, and the result is empty when the
  bounds cross.
\<close>

definition js_slice :: "'a list \<Rightarrow> int \<Rightarrow> int \<Rightarrow> 'a list" where
  "js_slice xs start stop =
     (let len = int (length xs);
          k = (if start < 0 then max (len + start) 0 else min start len);
          final = (if stop < 0 then max (len + stop) 0 else min stop len)
      in take (nat (final - k)) (drop (nat k) xs))"

definition paginatedData :: "props \<Rightarrow> int \<Rightarrow> row list" where
  "paginatedData p currentPage =
     (if p_pagination p
      then js_slice (data p) (startIndex p currentPage) (endIndex p currentPage)
      else data p)"

subsection \<open>The page-indicator window\<close>

datatype page_indicator = PageNum int | Ellipsis

text \<open>\<open>for (let i = lo; i <= hi; i++) pages.push(i)\<close>\<close>

function push_range :: "int \<Rightarrow> int \<Rightarrow> page_indicator list \<Rightarrow> page_indicator list" where
  "push_range i hi pages =
     (if i \<le> hi then push_range (i + 1) hi (pages @ [PageNum i]) else pages)"
  by pat_completeness auto
termination
  by (relation "measure (\<lambda>(i, hi, pages). nat (hi + 1 - i))") auto

definition maxVisiblePages :: int where
  "maxVisiblePages = 5"

definition getPageNumbers :: "int \<Rightarrow> int \<Rightarrow> page_indicator list" where
  "getPageNumbers currentPage tot =
     (if tot \<le> maxVisiblePages then push_range 1 tot []
      else if currentPage \<le> 3 then
        push_range 1 4 [] @ [Ellipsis] @ [PageNum tot]
      else if currentPage \<ge> tot - 2 then
        push_range (tot - 3) tot ([PageNum 1] @ [Ellipsis])
      else
        push_range (currentPage - 1) (currentPage + 1) ([PageNum 1] @ [Ellipsis])
          @ [Ellipsis] @ [PageNum tot])"

text \<open>Properties of a window that the specification names.\<close>

definition ellipsis_count :: "page_indicator list \<Rightarrow> nat" where
  "ellipsis_count pages = length (filter (\<lambda>x. x = Ellipsis) pages)"

fun page_numbers :: "page_indicator list \<Rightarrow> int list" where
  "page_numbers [] = []"
| "page_numbers (PageNum n # xs) = n # page_numbers xs"
| "page_numbers (Ellipsis # xs) = page_numbers xs"

fun adjacent_ellipses :: "page_indicator list \<Rightarrow> bool" where
  "adjacent_ellipses (Ellipsis # Ellipsis # xs) = True"
| "adjacent_ellipses (x # xs) = adjacent_ellipses xs"
| "adjacent_ellipses [] = False"

subsection \<open>Cell content\<close>

definition digit_char :: "nat \<Rightarrow> char" where
  "digit_char d = ''0123456789'' ! d"

function string_of_nat :: "nat \<Rightarrow> string" where
  "string_of_nat n =
     (if n < 10 then [digit_char n]
      else string_of_nat (n div 10) @ [digit_char (n mod 10)])"
  by pat_completeness auto
termination
  by (relation "measure id") auto

text \<open>\<open>String(v)\<close> on the modelled values.\<close>

fun js_String :: "jsval \<Rightarrow> string" where
  "js_String JUndefined = ''undefined''"
| "js_String JNull = ''null''"
| "js_String (JBool b) = (if b then ''true'' else ''false'')"
| "js_String (JNum w) =
     (if sint w < 0 then ''-'' @ string_of_nat (nat (- sint w))
      else string_of_nat (nat (sint w)))"
| "js_String (JStr s) = s"
| "js_String (JFunction t) = t"
| "js_String JObject = ''[object Object]''"

definition getCellContent :: "row \<Rightarrow> column \<Rightarrow> react_node" where
  "getCellContent r col =
     (case accessor col of
        Fn f \<Rightarrow> f r
      | Field k \<Rightarrow> Text (js_String (js_get r k)))"

subsection \<open>Mobile card view\<close>

text \<open>
  The three column selections of a card, in the order in which the card shows them:
  \<open>columns.filter((col) => col.mobileHighlight)\<close>,
  \<open>columns.filter((col) => !col.mobileHighlight && col.header !== 'Actions')\<close> and,
  guarded by \<open>columns.some((col) => col.header === 'Actions')\<close>,
  \<open>columns.find((col) => col.header === 'Actions')\<close>.
\<close>

definition highlight_columns :: "column list \<Rightarrow> column list" where
  "highlight_columns cols = filter (\<lambda>col. truthy (mobileHighlight col)) cols"

definition grid_columns :: "column list \<Rightarrow> column list" where
  "grid_columns cols =
     filter (\<lambda>col. \<not> truthy (mobileHighlight col) \<and> header col \<noteq> ''Actions'') cols"

definition actions_column :: "column list \<Rightarrow> column option" where
  "actions_column cols =
     (if list_ex (\<lambda>col. header col = ''Actions'') cols
      then find (\<lambda>col. header col = ''Actions'') cols
      else None)"


text \<open>
  The children of a card's \<open>div\<close>, in document order: the region of the highlighted
  columns (contents only), the two-column grid (a label and a content per column), and,
  only when there is an \<open>Actions\<close> column, the region at the bottom set off by a border.
\<close>

datatype card_region =
    HighlightRegion "react_node list"
  | GridRegion "(string \<times> react_node) list"
  | ActionsRegion react_node

record card =
  card_key :: jsval
  card_clickable :: bool
  card_children :: "card_region list"

definition MobileCardView :: "props \<Rightarrow> int \<Rightarrow> card list" where
  "MobileCardView p currentPage =
     map (\<lambda>r.
       \<lparr> card_key = js_get r ''id'',
         card_clickable = onRowClick p,
         card_children =
           [HighlightRegion (map (getCellContent r) (highlight_columns (columns p))),
            GridRegion
              (map (\<lambda>col. (header col, getCellContent r col)) (grid_columns (columns p)))]
           @ (case actions_column (columns p) of
                None \<Rightarrow> []
              | Some col \<Rightarrow> [ActionsRegion (getCellContent r col)]) \<rparr>)
       (paginatedData p currentPage)"

text \<open>What a card shows in each of its regions.\<close>

fun region_highlights :: "card_region \<Rightarrow> react_node list" where
  "region_highlights (HighlightRegion ns) = ns"
| "region_highlights reg = []"

fun region_grid :: "card_region \<Rightarrow> (string \<times> react_node) list" where
  "region_grid (GridRegion cells) = cells"
| "region_grid reg = []"

fun region_actions :: "card_region \<Rightarrow> react_node list" where
  "region_actions (ActionsRegion n) = [n]"
| "region_actions reg = []"

definition card_highlights :: "card \<Rightarrow> react_node list" where
  "card_highlights c = concat (map region_highlights (card_children c))"

definition card_grid :: "card \<Rightarrow> (string \<times> react_node) list" where
  "card_grid c = concat (map region_grid (card_children c))"

definition card_actions :: "card \<Rightarrow> react_node option" where
  "card_actions c =
     (case concat (map region_actions (card_children c)) of
        [] \<Rightarrow> None
      | n # ns \<Rightarrow> Some n)"

subsection \<open>Desktop table view\<close>

record cell =
  cell_className :: string
  cell_content :: react_node

record table_row =
  row_key :: jsval
  row_clickable :: bool
  row_cells :: "cell list"

record desktop_table =
  table_className :: string
  head_cells :: "cell list"
  body_rows :: "table_row list"

text \<open>The part of a cell's class list that depends on the column.\<close>

definition column_classes :: "column \<Rightarrow> string" where
  "column_classes col =
     default_to [] (className col) @ '' '' @
     (if truthy (hideOnMobile col) then ''hidden md:table-cell'' else [])"

definition DesktopTableView :: "props \<Rightarrow> int \<Rightarrow> desktop_table" where
  "DesktopTableView p currentPage =
     \<lparr> table_className = (if p_mobileCardView p then ''hidden md:block'' else []),
       head_cells =
         map (\<lambda>col.
           \<lparr> cell_className =
               ''px-3 sm:px-4 py-3 text-left text-xs sm:text-sm font-medium text-navy '' @
               column_classes col,
             cell_content = Text (header col) \<rparr>) (columns p),
       body_rows =
         map (\<lambda>r.
           \<lparr> row_key = js_get r ''id'',
             row_clickable = onRowClick p,
             row_cells =
               map (\<lambda>col.
                 \<lparr> cell_className =
                     ''px-3 sm:px-4 py-3 text-xs sm:text-sm text-black '' @
                     column_classes col,
                   cell_content = getCellContent r col \<rparr>) (columns p) \<rparr>)
           (paginatedData p currentPage) \<rparr>"

subsection \<open>Pagination controls\<close>

text \<open>
  A control of the strip. A button carries its \<open>onClick\<close> handler as the update it makes
  to the \<open>currentPage\<close> state cell: \<open>setCurrentPage(v)\<close> is \<open>\<lambda>_. v\<close> and
  \<open>setCurrentPage((prev) => e)\<close> is \<open>\<lambda>prev. e\<close>. \<open>NavButton\<close> holds the aria-label and the
  \<open>disabled\<close> attribute, \<open>PageButton\<close> the page number and whether it is styled as the
  current page, \<open>EllipsisSpan\<close> the index used in its key.
\<close>

datatype control =
    NavButton string bool "int \<Rightarrow> int"
  | PageButton int bool "int \<Rightarrow> int"
  | EllipsisSpan nat

record control_strip =
  showing_from :: int
  showing_to :: int
  showing_of :: int
  controls :: "control list"

definition page_controls :: "int \<Rightarrow> page_indicator list \<Rightarrow> control list" where
  "page_controls currentPage pages =
     map (\<lambda>(index, page).
       case page of
         Ellipsis \<Rightarrow> EllipsisSpan index
       | PageNum n \<Rightarrow> PageButton n (currentPage = n) (\<lambda>_. n))
       (enumerate 0 pages)"

definition PaginationControls :: "props \<Rightarrow> int \<Rightarrow> control_strip option" where
  "PaginationControls p currentPage =
     (if \<not> p_pagination p \<or> totalPages p \<le> 1 then None
      else Some
        \<lparr> showing_from = startIndex p currentPage + 1,
          showing_to = min (endIndex p currentPage) (int (length (data p))),
          showing_of = int (length (data p)),
          controls =
            [NavButton ''First page'' (currentPage = 1) (\<lambda>_. 1),
             NavButton ''Previous page'' (currentPage = 1) (\<lambda>prev. max 1 (prev - 1))]
            @ page_controls currentPage (getPageNumbers currentPage (totalPages p))
            @ [NavButton ''Next page'' (currentPage = totalPages p)
                 (\<lambda>prev. min (totalPages p) (prev + 1)),
               NavButton ''Last page'' (currentPage = totalPages p)
                 (\<lambda>_. totalPages p)] \<rparr>)"

subsection \<open>The component\<close>

datatype view =
    LoadingView
  | EmptyView string
  | TableView "card list option" desktop_table "control_strip option"

text \<open>
  One invocation of \<open>DataTable\<close>: the rendered tree and the value of the state cell after
  it. The slice \<open>paginatedData\<close> is a constant computed from the \<open>currentPage\<close> the
  invocation started with, and the sub-renderers close over it; the reset to page 1 comes
  after it in the source and only stores the new state, which the component sees when it
  is invoked again.
\<close>

definition DataTable :: "props \<Rightarrow> int \<Rightarrow> view \<times> int" where
  "DataTable p currentPage =
     (let state' = (if currentPage > totalPages p \<and> totalPages p > 0 then 1 else currentPage)
      in if p_loading p then (LoadingView, state')
         else if length (data p) = 0 then (EmptyView (p_emptyMessage p), state')
         else (TableView
                 (if p_mobileCardView p then Some (MobileCardView p currentPage) else None)
                 (DesktopTableView p currentPage)
                 (PaginationControls p currentPage),
               state'))"

text \<open>
  A render pass. When a state update made while rendering changes the state, React
  discards the tree the invocation returned and invokes the component again at once with
  the new state, before any child is rendered and before anything is shown; otherwise
  the returned tree is the result of the pass.
\<close>

definition render_pass :: "props \<Rightarrow> int \<Rightarrow> view \<times> int" where
  "render_pass p currentPage =
     (case DataTable p currentPage of
        (v, state') \<Rightarrow> if state' = currentPage then (v, state') else DataTable p state')"

subsection \<open>User navigation\<close>

text \<open>
  A click reaches a handler only through a control that the rendered tree contains, and a
  button with the \<open>disabled\<close> attribute does not dispatch clicks. \<open>click v a s\<close> is the
  state cell after the user, looking at view \<open>v\<close> with the state cell holding \<open>s\<close>,
  attempts action \<open>a\<close>.
\<close>

datatype action = First | Prev | Jump int | Next | Last

fun targets :: "action \<Rightarrow> control \<Rightarrow> bool" where
  "targets First (NavButton l d h) = (l = ''First page'')"
| "targets Prev (NavButton l d h) = (l = ''Previous page'')"
| "targets Next (NavButton l d h) = (l = ''Next page'')"
| "targets Last (NavButton l d h) = (l = ''Last page'')"
| "targets (Jump n) (PageButton m c h) = (n = m)"
| "targets a c = False"

fun press :: "control \<Rightarrow> int \<Rightarrow> int" where
  "press (NavButton l disabled h) s = (if disabled then s else h s)"
| "press (PageButton m c h) s = h s"
| "press (EllipsisSpan i) s = s"

fun view_controls :: "view \<Rightarrow> control list" where
  "view_controls (TableView m t (Some strip)) = controls strip"
| "view_controls v = []"

definition click :: "view \<Rightarrow> action \<Rightarrow> int \<Rightarrow> int" where
  "click v a s =
     (case find (targets a) (view_controls v) of
        Some c \<Rightarrow> press c s
      | None \<Rightarrow> s)"

text \<open>What a rendered tree holds.\<close>

fun view_strip :: "view \<Rightarrow> control_strip option" where
  "view_strip (TableView m t c) = c"
| "view_strip v = None"

fun view_table :: "view \<Rightarrow> desktop_table option" where
  "view_table (TableView m t c) = Some t"
| "view_table v = None"

fun view_cards :: "view \<Rightarrow> card list option" where
  "view_cards (TableView m t c) = m"
| "view_cards v = None"

subsection \<open>Example inputs\<close>

definition example_rows :: "nat \<Rightarrow> row list" where
  "example_rows n =
     map (\<lambda>i. plain_object [(''id'', JStr (string_of_nat i)), (''visits'', JNum (of_nat i))])
       [0..<n]"

definition example_columns :: "column list" where
  "example_columns =
     [\<lparr> header = ''Name'', accessor = Field ''id'', className = None,
        hideOnMobile = None, mobileHighlight = Some True \<rparr>,
      \<lparr> header = ''Visits'', accessor = Field ''visits'', className = None,
        hideOnMobile = Some True, mobileHighlight = None \<rparr>]"

definition example_props :: "nat \<Rightarrow> int \<Rightarrow> props" where
  "example_props n sz =
     \<lparr> columns = example_columns, data = example_rows n, loading = None,
       emptyMessage = None, onRowClick = False, mobileCardView = None,
       pagination = Some True, pageSize = Some sz \<rparr>"



section \<open>Lemmas on the window\<close>

declare push_range.simps [simp del]

lemma push_range_upto: "push_range i hi pages = pages @ map PageNum [i..hi]"
proof (induction i hi pages rule: push_range.induct)
  case (1 i hi pages)
  show ?case
  proof (cases "i \<le> hi")
    case True
    then have "[i..hi] = i # [i + 1..hi]"
      by (simp add: upto_rec1)
    with True "1.IH" show ?thesis
      by (subst push_range.simps) simp
  next
    case False
    then show ?thesis
      by (subst push_range.simps) simp
  qed
qed

lemma window_small:
  "tot \<le> 5 \<Longrightarrow> getPageNumbers currentPage tot = map PageNum [1..tot]"
  by (simp add: getPageNumbers_def maxVisiblePages_def push_range_upto)

lemma upto_1_4: "[1..4::int] = [1, 2, 3, 4]"
  by (simp add: upto.simps)

lemma upto_last4: "[t - 3..t::int] = [t - 3, t - 2, t - 1, t]"
proof -
  have "[t - 3..t] = (t - 3) # [t - 3 + 1..t]" by (simp add: upto_rec1)
  also have "[t - 3 + 1..t] = (t - 2) # [t - 2 + 1..t]" by (simp add: upto_rec1)
  also have "[t - 2 + 1..t] = (t - 1) # [t - 1 + 1..t]" by (simp add: upto_rec1)
  also have "[t - 1 + 1..t] = [t]" by simp
  finally show ?thesis .
qed

lemma upto_around: "[c - 1..c + 1::int] = [c - 1, c, c + 1]"
proof -
  have "[c - 1..c + 1] = (c - 1) # [c - 1 + 1..c + 1]" by (simp add: upto_rec1)
  also have "[c - 1 + 1..c + 1] = c # [c + 1..c + 1]" by (simp add: upto_rec1)
  also have "[c + 1..c + 1] = [c + 1]" by simp
  finally show ?thesis .
qed

lemma window_front:
  "5 < tot \<Longrightarrow> currentPage \<le> 3 \<Longrightarrow>
   getPageNumbers currentPage tot =
     [PageNum 1, PageNum 2, PageNum 3, PageNum 4, Ellipsis, PageNum tot]"
  by (simp add: getPageNumbers_def maxVisiblePages_def push_range_upto upto_1_4)

lemma window_back:
  "5 < tot \<Longrightarrow> 3 < currentPage \<Longrightarrow> tot - 2 \<le> currentPage \<Longrightarrow>
   getPageNumbers currentPage tot =
     [PageNum 1, Ellipsis, PageNum (tot - 3), PageNum (tot - 2), PageNum (tot - 1),
      PageNum tot]"
  by (simp add: getPageNumbers_def maxVisiblePages_def push_range_upto upto_last4)

lemma window_middle:
  "5 < tot \<Longrightarrow> 3 < currentPage \<Longrightarrow> currentPage < tot - 2 \<Longrightarrow>
   getPageNumbers currentPage tot =
     [PageNum 1, Ellipsis, PageNum (currentPage - 1), PageNum currentPage,
      PageNum (currentPage + 1), Ellipsis, PageNum tot]"
  by (simp add: getPageNumbers_def maxVisiblePages_def push_range_upto upto_around)


section \<open>The window function\<close>

text \<open>
  C1. The window function has the four branches of the specification: for
  \<open>totalPages \<le> 5\<close> it emits the page numbers \<open>1..totalPages\<close> in order and no
  ellipsis, whatever \<open>currentPage\<close> is; for \<open>totalPages > 5\<close> and \<open>currentPage \<le> 3\<close> it
  emits \<open>1, 2, 3, 4\<close>, an ellipsis and \<open>totalPages\<close>; for \<open>totalPages > 5\<close> and
  \<open>currentPage \<ge> totalPages - 2\<close> it emits \<open>1\<close>, an ellipsis and the last four pages;
  otherwise it emits \<open>1\<close>, an ellipsis, \<open>currentPage - 1, currentPage, currentPage + 1\<close>,
  an ellipsis and \<open>totalPages\<close>. The three examples of the specification are instances.
\<close>

theorem getPageNumbers_four_branches:
  "(tot \<le> 5 \<longrightarrow> getPageNumbers currentPage tot = map PageNum [1..tot]) \<and>
   (5 < tot \<and> currentPage \<le> 3 \<longrightarrow>
      getPageNumbers currentPage tot =
        [PageNum 1, PageNum 2, PageNum 3, PageNum 4, Ellipsis, PageNum tot]) \<and>
   (5 < tot \<and> tot - 2 \<le> currentPage \<longrightarrow>
      getPageNumbers currentPage tot =
        [PageNum 1, Ellipsis, PageNum (tot - 3), PageNum (tot - 2), PageNum (tot - 1),
         PageNum tot]) \<and>
   (5 < tot \<and> \<not> currentPage \<le> 3 \<and> \<not> tot - 2 \<le> currentPage \<longrightarrow>
      getPageNumbers currentPage tot =
        [PageNum 1, Ellipsis, PageNum (currentPage - 1), PageNum currentPage,
         PageNum (currentPage + 1), Ellipsis, PageNum tot]) \<and>
   getPageNumbers 1 10 =
     [PageNum 1, PageNum 2, PageNum 3, PageNum 4, Ellipsis, PageNum 10] \<and>
   getPageNumbers 7 10 =
     [PageNum 1, Ellipsis, PageNum 6, PageNum 7, PageNum 8, Ellipsis, PageNum 10] \<and>
   getPageNumbers 9 10 =
     [PageNum 1, Ellipsis, PageNum 7, PageNum 8, PageNum 9, PageNum 10]"
proof (intro conjI impI)
  show "getPageNumbers 1 10 =
      [PageNum 1, PageNum 2, PageNum 3, PageNum 4, Ellipsis, PageNum 10]"
    using window_front [of 10 1] by simp
  show "getPageNumbers 7 10 =
      [PageNum 1, Ellipsis, PageNum 6, PageNum 7, PageNum 8, Ellipsis, PageNum 10]"
    using window_middle [of 10 7] by simp
  show "getPageNumbers 9 10 =
      [PageNum 1, Ellipsis, PageNum 7, PageNum 8, PageNum 9, PageNum 10]"
    using window_back [of 10 9] by simp
qed (simp_all add: window_small window_front window_back window_middle)

theorem getPageNumbers_four_branches_witness:
  "(3::int) \<le> 5 \<and> getPageNumbers 2 3 = [PageNum 1, PageNum 2, PageNum 3] \<and>
   (5::int) < 8 \<and> (2::int) \<le> 3 \<and>
   getPageNumbers 2 8 = [PageNum 1, PageNum 2, PageNum 3, PageNum 4, Ellipsis, PageNum 8] \<and>
   (8::int) - 2 \<le> 6 \<and>
   getPageNumbers 6 8 = [PageNum 1, Ellipsis, PageNum 5, PageNum 6, PageNum 7, PageNum 8] \<and>
   (5::int) < 9 \<and> \<not> (5::int) \<le> 3 \<and> \<not> (9::int) - 2 \<le> 5 \<and>
   getPageNumbers 5 9 =
     [PageNum 1, Ellipsis, PageNum 4, PageNum 5, PageNum 6, Ellipsis, PageNum 9]"
  using getPageNumbers_four_branches [where tot = 3 and currentPage = 2]
    getPageNumbers_four_branches [where tot = 8 and currentPage = 2]
    getPageNumbers_four_branches [where tot = 8 and currentPage = 6]
    getPageNumbers_four_branches [where tot = 9 and currentPage = 5]
  by (simp add: upto.simps)

text \<open>
  C2. For \<open>totalPages > 5\<close> and \<open>currentPage\<close> in \<open>[1, totalPages]\<close> the window has
  between 5 and 7 entries, one or two of them ellipsis markers, contains page \<open>1\<close> and
  page \<open>totalPages\<close>, has no two ellipsis markers next to each other and repeats no page
  number.
\<close>

theorem getPageNumbers_shape:
  assumes "5 < tot" and "1 \<le> currentPage" and "currentPage \<le> tot"
  shows "5 \<le> length (getPageNumbers currentPage tot) \<and>
         length (getPageNumbers currentPage tot) \<le> 7 \<and>
         (ellipsis_count (getPageNumbers currentPage tot) = 1 \<or>
          ellipsis_count (getPageNumbers currentPage tot) = 2) \<and>
         PageNum 1 \<in> set (getPageNumbers currentPage tot) \<and>
         PageNum tot \<in> set (getPageNumbers currentPage tot) \<and>
         \<not> adjacent_ellipses (getPageNumbers currentPage tot) \<and>
         distinct (page_numbers (getPageNumbers currentPage tot))"
proof -
  consider (near_start) "currentPage \<le> 3"
    | (near_end) "3 < currentPage" "tot - 2 \<le> currentPage"
    | (inner) "3 < currentPage" "currentPage < tot - 2"
    by linarith
  then show ?thesis
  proof cases
    case near_start
    with assms show ?thesis
      by (simp add: window_front ellipsis_count_def)
  next
    case near_end
    with assms show ?thesis
      by (simp add: window_back ellipsis_count_def)
  next
    case inner
    with assms show ?thesis
      by (simp add: window_middle ellipsis_count_def)
  qed
qed

theorem getPageNumbers_shape_witness:
  "(5::int) < 10 \<and> (1::int) \<le> 7 \<and> (7::int) \<le> 10 \<and>
   length (getPageNumbers 7 10) = 7 \<and> ellipsis_count (getPageNumbers 7 10) = 2 \<and>
   PageNum 1 \<in> set (getPageNumbers 7 10) \<and> PageNum 10 \<in> set (getPageNumbers 7 10) \<and>
   \<not> adjacent_ellipses (getPageNumbers 7 10) \<and>
   distinct (page_numbers (getPageNumbers 7 10))"
  using getPageNumbers_shape [of 10 7]
  by (simp add: window_middle ellipsis_count_def)

section \<open>Slicing\<close>

lemma js_slice_window:
  assumes "0 \<le> start" and "start \<le> stop"
  shows "js_slice xs start stop = take (nat (stop - start)) (drop (nat start) xs)"
proof (cases "start \<le> int (length xs)")
  case True
  with assms have "js_slice xs start stop =
      take (nat (min stop (int (length xs)) - start)) (drop (nat start) xs)"
    by (simp add: js_slice_def Let_def min_def)
  also have "\<dots> = take (nat (stop - start)) (drop (nat start) xs)"
  proof (cases "stop \<le> int (length xs)")
    case True
    then show ?thesis by (simp add: min_def)
  next
    case False
    with assms have "nat (min stop (int (length xs)) - start) = length (drop (nat start) xs)"
      by (simp add: min_def)
    moreover from False assms have "length (drop (nat start) xs) \<le> nat (stop - start)"
      by simp
    ultimately show ?thesis by simp
  qed
  finally show ?thesis .
next
  case False
  with assms show ?thesis
    by (simp add: js_slice_def Let_def min_def)
qed

lemma take_drop_nth: "take n (drop k xs) = map ((!) xs) [k..<min (k + n) (length xs)]"
proof (rule nth_equalityI)
  show "length (take n (drop k xs)) = length (map ((!) xs) [k..<min (k + n) (length xs)])"
    by simp
next
  fix i
  assume "i < length (take n (drop k xs))"
  then have "i < n" and "k + i < length xs"
    by auto
  then show "take n (drop k xs) ! i = map ((!) xs) [k..<min (k + n) (length xs)] ! i"
    by simp
qed

lemma ceil_div_bounds:
  assumes "0 < b"
  shows "a \<le> ceil_div a b * b" and "(ceil_div a b - 1) * b < a"
proof -
  have eq: "(- a) div b * b = - a - (- a) mod b"
    by (simp add: minus_mod_eq_div_mult)
  from assms have lo: "0 \<le> (- a) mod b" and hi: "(- a) mod b < b"
    by simp_all
  from lo show "a \<le> ceil_div a b * b"
    by (simp add: ceil_div_def eq)
  from hi show "(ceil_div a b - 1) * b < a"
    by (simp add: ceil_div_def left_diff_distrib eq)
qed

lemma upto_as_nat: "[1..int m] = map (\<lambda>k. int k + 1) [0..<m]"
  by (induction m) (simp_all add: upto_rec2)

lemma concat_chunks:
  "concat (map (\<lambda>k. take n (drop (k * n) xs)) [0..<m]) = take (m * n) xs"
proof (induction m)
  case 0
  show ?case by simp
next
  case (Suc m)
  have "take (m * n) xs @ take n (drop (m * n) xs) = take (m * n + n) xs"
    by (simp add: take_add)
  with Suc show ?case
    by (simp add: add.commute)
qed


lemma paginatedData_take_drop:
  assumes "p_pagination p" and "0 < p_pageSize p" and "1 \<le> currentPage"
  shows "paginatedData p currentPage =
    take (nat (p_pageSize p)) (drop (nat (currentPage - 1) * nat (p_pageSize p)) (data p))"
proof -
  from assms have "0 \<le> startIndex p currentPage"
    by (simp add: startIndex_def)
  moreover from assms have "startIndex p currentPage \<le> endIndex p currentPage"
    by (simp add: endIndex_def)
  ultimately have "js_slice (data p) (startIndex p currentPage) (endIndex p currentPage) =
      take (nat (endIndex p currentPage - startIndex p currentPage))
        (drop (nat (startIndex p currentPage)) (data p))"
    by (rule js_slice_window)
  moreover from assms have "nat (startIndex p currentPage) =
      nat (currentPage - 1) * nat (p_pageSize p)"
    by (simp add: startIndex_def nat_mult_distrib)
  moreover have "endIndex p currentPage - startIndex p currentPage = p_pageSize p"
    by (simp add: endIndex_def)
  ultimately show ?thesis
    using assms by (simp add: paginatedData_def)
qed

lemma strip_needs_pagination:
  "\<not> p_pagination p \<Longrightarrow> view_strip (fst (DataTable p currentPage)) = None"
  by (simp add: DataTable_def Let_def PaginationControls_def)

text \<open>
  C4. With pagination enabled, a positive \<open>pageSize\<close> and a page number \<open>currentPage\<close>
  (1-indexed, so at least 1, as the state cell always is), \<open>startIndex\<close> is
  \<open>(currentPage - 1) * pageSize\<close>, \<open>endIndex\<close> is \<open>startIndex + pageSize\<close>, and the visible
  slice consists of the records at the indices from \<open>startIndex\<close> up to, not including,
  \<open>endIndex\<close> clamped to the length of the collection. With 23 records, \<open>pageSize\<close> 10 and
  \<open>currentPage\<close> 3 this is records 20 to 22, and \<open>totalPages\<close> is 3. With pagination
  disabled the visible slice is the whole collection and no control strip is rendered.
\<close>

theorem paginatedData_slice:
  "(p_pagination p \<and> 0 < p_pageSize p \<and> 1 \<le> currentPage \<longrightarrow>
      startIndex p currentPage = (currentPage - 1) * p_pageSize p \<and>
      endIndex p currentPage = startIndex p currentPage + p_pageSize p \<and>
      paginatedData p currentPage =
        map (\<lambda>i. data p ! i)
          [nat (startIndex p currentPage)..<
           nat (min (endIndex p currentPage) (int (length (data p))))]) \<and>
   (p_pagination p \<and> p_pageSize p = 10 \<and> length (data p) = 23 \<longrightarrow>
      totalPages p = 3 \<and>
      paginatedData p 3 = map (\<lambda>i. data p ! i) [20..<23] \<and>
      length (paginatedData p 3) = 3) \<and>
   (\<not> p_pagination p \<longrightarrow>
      paginatedData p currentPage = data p \<and>
      PaginationControls p currentPage = None \<and>
      view_strip (fst (DataTable p currentPage)) = None)"
proof (intro conjI impI)
  assume h: "p_pagination p \<and> 0 < p_pageSize p \<and> 1 \<le> currentPage"
  show "startIndex p currentPage = (currentPage - 1) * p_pageSize p"
    by (simp add: startIndex_def)
  show "endIndex p currentPage = startIndex p currentPage + p_pageSize p"
    by (simp add: endIndex_def)
  from h have start: "nat (startIndex p currentPage) =
      nat (currentPage - 1) * nat (p_pageSize p)"
    by (simp add: startIndex_def nat_mult_distrib)
  from h have "0 \<le> startIndex p currentPage"
    by (simp add: startIndex_def)
  with h have "nat (endIndex p currentPage) =
      nat (startIndex p currentPage) + nat (p_pageSize p)"
    by (simp add: endIndex_def nat_add_distrib)
  moreover have "nat (min (endIndex p currentPage) (int (length (data p)))) =
      min (nat (endIndex p currentPage)) (length (data p))"
    by (simp add: min_def) linarith
  ultimately have "nat (min (endIndex p currentPage) (int (length (data p)))) =
      min (nat (currentPage - 1) * nat (p_pageSize p) + nat (p_pageSize p)) (length (data p))"
    by (simp add: start)
  with start show "paginatedData p currentPage =
      map (\<lambda>i. data p ! i)
        [nat (startIndex p currentPage)..<
         nat (min (endIndex p currentPage) (int (length (data p))))]"
    using h by (simp add: paginatedData_take_drop take_drop_nth)
next
  assume h: "p_pagination p \<and> p_pageSize p = 10 \<and> length (data p) = 23"
  then show "totalPages p = 3"
    by (simp add: totalPages_def ceil_div_def)
  from h have "paginatedData p 3 = take 10 (drop 20 (data p))"
    by (simp add: paginatedData_take_drop)
  with h show "paginatedData p 3 = map (\<lambda>i. data p ! i) [20..<23]"
    by (simp add: take_drop_nth)
  then show "length (paginatedData p 3) = 3"
    by simp
next
  assume h: "\<not> p_pagination p"
  then show "paginatedData p currentPage = data p"
    by (simp add: paginatedData_def)
  from h show "PaginationControls p currentPage = None"
    by (simp add: PaginationControls_def)
  from h show "view_strip (fst (DataTable p currentPage)) = None"
    by (rule strip_needs_pagination)
qed

lemma ex_rows_len: "length (example_rows n) = n"
  by (simp add: example_rows_def)

theorem paginatedData_slice_witness:
  "p_pagination (example_props 23 10) \<and> 0 < p_pageSize (example_props 23 10) \<and> (1::int) \<le> 3 \<and>
   p_pageSize (example_props 23 10) = 10 \<and> length (data (example_props 23 10)) = 23 \<and>
   totalPages (example_props 23 10) = 3 \<and>
   paginatedData (example_props 23 10) 3 =
     map (\<lambda>i. data (example_props 23 10) ! i) [20..<23] \<and>
   \<not> p_pagination ((example_props 23 10)\<lparr>pagination := None\<rparr>) \<and>
   paginatedData ((example_props 23 10)\<lparr>pagination := None\<rparr>) 3 = example_rows 23 \<and>
   view_strip (fst (DataTable ((example_props 23 10)\<lparr>pagination := None\<rparr>) 3)) = None"
  using paginatedData_slice [of "example_props 23 10" 3]
    paginatedData_slice [of "(example_props 23 10)\<lparr>pagination := None\<rparr>" 3]
  by (simp add: example_props_def p_pagination_def p_pageSize_def ex_rows_len
      startIndex_def endIndex_def)


lemma totalPages_bounds:
  assumes "0 < p_pageSize p"
  shows "int (length (data p)) \<le> totalPages p * p_pageSize p"
    and "(totalPages p - 1) * p_pageSize p < int (length (data p))"
  using ceil_div_bounds [OF assms, of "int (length (data p))"]
  by (simp_all add: totalPages_def)

lemma page_starts_inside:
  assumes "0 < p_pageSize p" and "1 \<le> currentPage" and "currentPage \<le> totalPages p"
  shows "nat (currentPage - 1) * nat (p_pageSize p) < length (data p)"
proof -
  from assms have "(currentPage - 1) * p_pageSize p \<le> (totalPages p - 1) * p_pageSize p"
    by (intro mult_right_mono) simp_all
  with totalPages_bounds(2) [OF assms(1)]
  have "(currentPage - 1) * p_pageSize p < int (length (data p))"
    by linarith
  moreover from assms have "int (nat (currentPage - 1) * nat (p_pageSize p)) =
      (currentPage - 1) * p_pageSize p"
    by simp
  ultimately show ?thesis
    by linarith
qed

lemma full_page_length:
  assumes "p_pagination p" and "0 < p_pageSize p"
    and "1 \<le> currentPage" and "currentPage < totalPages p"
  shows "length (paginatedData p currentPage) = nat (p_pageSize p)"
proof -
  from assms have "nat (currentPage + 1 - 1) * nat (p_pageSize p) < length (data p)"
    by (intro page_starts_inside) simp_all
  moreover from assms have "nat (currentPage + 1 - 1) = nat (currentPage - 1) + 1"
    by simp
  ultimately have "nat (currentPage - 1) * nat (p_pageSize p) + nat (p_pageSize p)
      < length (data p)"
    by (simp add: add_mult_distrib)
  with assms show ?thesis
    by (simp add: paginatedData_take_drop)
qed

lemma last_page_length:
  assumes "p_pagination p" and "0 < p_pageSize p" and "0 < totalPages p"
  shows "0 < length (paginatedData p (totalPages p))"
    and "length (paginatedData p (totalPages p)) \<le> nat (p_pageSize p)"
proof -
  from assms have "nat (totalPages p - 1) * nat (p_pageSize p) < length (data p)"
    by (intro page_starts_inside) simp_all
  with assms show "0 < length (paginatedData p (totalPages p))"
    by (simp add: paginatedData_take_drop)
  from assms show "length (paginatedData p (totalPages p)) \<le> nat (p_pageSize p)"
    by (simp add: paginatedData_take_drop)
qed

lemma pages_concat:
  assumes "p_pagination p" and "0 < p_pageSize p"
  shows "concat (map (paginatedData p) [1..totalPages p]) = data p"
proof (cases "0 < totalPages p")
  case True
  define m where "m = nat (totalPages p)"
  define n where "n = nat (p_pageSize p)"
  from True have tp: "totalPages p = int m"
    by (simp add: m_def)
  have "map (paginatedData p) [1..int m] =
      map (\<lambda>k. take n (drop (k * n) (data p))) [0..<m]"
    using assms by (simp add: upto_as_nat paginatedData_take_drop n_def)
  then have "concat (map (paginatedData p) [1..totalPages p]) = take (m * n) (data p)"
    by (simp add: tp concat_chunks)
  moreover from assms True have "int (m * n) = totalPages p * p_pageSize p"
    by (simp add: m_def n_def)
  with totalPages_bounds(1) [OF assms(2)] have "length (data p) \<le> m * n"
    by linarith
  ultimately show ?thesis
    by simp
next
  case False
  with assms(2) have "totalPages p * p_pageSize p \<le> 0"
    by (simp add: mult_nonpos_nonneg)
  with totalPages_bounds(1) [OF assms(2)] have "int (length (data p)) \<le> 0"
    by linarith
  with False show ?thesis
    by simp
qed

text \<open>
  C5. For a positive \<open>pageSize\<close>, the visible slices of the pages \<open>1..totalPages\<close>, put
  one after the other, are the record list itself: nothing is lost, repeated or reordered.
  Every page before the last holds exactly \<open>pageSize\<close> records, and the last page holds at
  least one and at most \<open>pageSize\<close>.
\<close>

theorem pages_reconstruct_data:
  assumes "p_pagination p" and "0 < p_pageSize p"
  shows "concat (map (paginatedData p) [1..totalPages p]) = data p \<and>
         (\<forall>currentPage. 1 \<le> currentPage \<and> currentPage < totalPages p \<longrightarrow>
            length (paginatedData p currentPage) = nat (p_pageSize p)) \<and>
         (0 < totalPages p \<longrightarrow>
            0 < length (paginatedData p (totalPages p)) \<and>
            length (paginatedData p (totalPages p)) \<le> nat (p_pageSize p))"
proof (intro conjI allI impI)
  show "concat (map (paginatedData p) [1..totalPages p]) = data p"
    using assms by (rule pages_concat)
next
  fix currentPage
  assume "1 \<le> currentPage \<and> currentPage < totalPages p"
  with assms show "length (paginatedData p currentPage) = nat (p_pageSize p)"
    by (simp add: full_page_length)
next
  assume "0 < totalPages p"
  with assms show "0 < length (paginatedData p (totalPages p))"
    by (rule last_page_length(1))
next
  assume "0 < totalPages p"
  with assms show "length (paginatedData p (totalPages p)) \<le> nat (p_pageSize p)"
    by (rule last_page_length(2))
qed

theorem pages_reconstruct_data_witness:
  "p_pagination (example_props 5 2) \<and> 0 < p_pageSize (example_props 5 2) \<and>
   totalPages (example_props 5 2) = 3 \<and>
   paginatedData (example_props 5 2) 1 @ paginatedData (example_props 5 2) 2 @
     paginatedData (example_props 5 2) 3 = data (example_props 5 2) \<and>
   (1::int) \<le> 2 \<and> 2 < totalPages (example_props 5 2) \<and>
   length (paginatedData (example_props 5 2) 2) = 2 \<and>
   0 < length (paginatedData (example_props 5 2) 3) \<and>
   length (paginatedData (example_props 5 2) 3) \<le> 2"
proof -
  have on: "p_pagination (example_props 5 2)"
    by (simp add: example_props_def p_pagination_def)
  have sz: "p_pageSize (example_props 5 2) = 2"
    by (simp add: example_props_def p_pageSize_def)
  have tp: "totalPages (example_props 5 2) = 3"
    by (simp add: example_props_def p_pageSize_def totalPages_def ceil_div_def ex_rows_len)
  from sz have pos: "0 < p_pageSize (example_props 5 2)"
    by simp
  show ?thesis
    using pages_reconstruct_data [OF on pos] on
    by (simp add: tp sz upto.simps)
qed

section \<open>Self-correction of the page state\<close>

lemma DataTable_state:
  "snd (DataTable p currentPage) =
     (if totalPages p < currentPage \<and> 0 < totalPages p then 1 else currentPage)"
  by (simp add: DataTable_def Let_def)

lemma DataTable_view:
  "\<not> p_loading p \<Longrightarrow> data p \<noteq> [] \<Longrightarrow>
   fst (DataTable p currentPage) =
     TableView (if p_mobileCardView p then Some (MobileCardView p currentPage) else None)
       (DesktopTableView p currentPage) (PaginationControls p currentPage)"
  by (simp add: DataTable_def Let_def)

lemma render_pass_unfold:
  "render_pass p currentPage =
     (if snd (DataTable p currentPage) = currentPage then DataTable p currentPage
      else DataTable p (snd (DataTable p currentPage)))"
  by (cases "DataTable p currentPage") (simp add: render_pass_def)

lemma render_pass_corrects:
  assumes "totalPages p < currentPage" and "0 < totalPages p"
  shows "render_pass p currentPage = DataTable p 1"
  using assms by (simp add: render_pass_unfold DataTable_state)

text \<open>One re-invocation is enough: the state a render pass ends with is not updated again.\<close>

lemma render_pass_settled:
  "snd (DataTable p (snd (render_pass p currentPage))) = snd (render_pass p currentPage)"
  by (simp add: render_pass_unfold DataTable_state)

lemma first_page_slice:
  assumes "p_pagination p" and "0 < p_pageSize p"
  shows "paginatedData p 1 = take (nat (p_pageSize p)) (data p)"
  using assms by (simp add: paginatedData_take_drop)

text \<open>
  C3. A render pass that begins with \<open>currentPage > totalPages\<close> and \<open>totalPages > 0\<close>
  corrects the page state to 1 within the pass: the pass ends with the state cell holding
  1 and no further update pending, and the tree it produces is the one of page 1, so both
  layouts are built from the slice of page 1 (with pagination enabled and a positive
  \<open>pageSize\<close>, the first \<open>pageSize\<close> records). In particular, with \<open>currentPage = 5\<close> and
  \<open>totalPages = 2\<close> the slice of the pass is the slice of page 1.
\<close>

theorem self_correction_same_pass:
  assumes "totalPages p < currentPage" and "0 < totalPages p"
  shows "snd (render_pass p currentPage) = 1 \<and>
         snd (DataTable p (snd (render_pass p currentPage))) = snd (render_pass p currentPage) \<and>
         fst (render_pass p currentPage) = fst (DataTable p 1) \<and>
         (\<not> p_loading p \<and> data p \<noteq> [] \<longrightarrow>
            view_table (fst (render_pass p currentPage)) = Some (DesktopTableView p 1) \<and>
            view_cards (fst (render_pass p currentPage)) =
              (if p_mobileCardView p then Some (MobileCardView p 1) else None)) \<and>
         map row_key (body_rows (DesktopTableView p 1)) =
           map (\<lambda>r. js_get r ''id'') (paginatedData p 1) \<and>
         map (\<lambda>tr. map cell_content (row_cells tr)) (body_rows (DesktopTableView p 1)) =
           map (\<lambda>r. map (getCellContent r) (columns p)) (paginatedData p 1) \<and>
         map card_key (MobileCardView p 1) =
           map (\<lambda>r. js_get r ''id'') (paginatedData p 1) \<and>
         (p_pagination p \<and> 0 < p_pageSize p \<longrightarrow>
            paginatedData p 1 = take (nat (p_pageSize p)) (data p)) \<and>
         (currentPage = 5 \<and> totalPages p = 2 \<longrightarrow>
            snd (render_pass p 5) = 1 \<and> fst (render_pass p 5) = fst (DataTable p 1))"
proof -
  have pass: "render_pass p currentPage = DataTable p 1"
    using assms by (rule render_pass_corrects)
  from assms(2) have one: "snd (DataTable p 1) = 1"
    by (simp add: DataTable_state)
  have keys: "map row_key (body_rows (DesktopTableView p 1)) =
      map (\<lambda>r. js_get r ''id'') (paginatedData p 1)"
    by (simp add: DesktopTableView_def comp_def)
  have cells: "map (\<lambda>tr. map cell_content (row_cells tr)) (body_rows (DesktopTableView p 1)) =
      map (\<lambda>r. map (getCellContent r) (columns p)) (paginatedData p 1)"
    by (simp add: DesktopTableView_def comp_def)
  have cards: "map card_key (MobileCardView p 1) =
      map (\<lambda>r. js_get r ''id'') (paginatedData p 1)"
    by (simp add: MobileCardView_def comp_def)
  from pass one keys cells cards show ?thesis
    by (auto simp add: DataTable_view first_page_slice)
qed

theorem self_correction_same_pass_witness:
  "totalPages (example_props 3 2) = 2 \<and> totalPages (example_props 3 2) < 5 \<and>
   0 < totalPages (example_props 3 2) \<and>
   snd (render_pass (example_props 3 2) 5) = 1 \<and>
   \<not> p_loading (example_props 3 2) \<and> data (example_props 3 2) \<noteq> [] \<and>
   p_pagination (example_props 3 2) \<and> 0 < p_pageSize (example_props 3 2) \<and>
   view_table (fst (render_pass (example_props 3 2) 5)) =
     Some (DesktopTableView (example_props 3 2) 1) \<and>
   map row_key (body_rows (DesktopTableView (example_props 3 2) 1)) = [JStr ''0'', JStr ''1''] \<and>
   paginatedData (example_props 3 2) 1 = take 2 (data (example_props 3 2))"
proof -
  have tp: "totalPages (example_props 3 2) = 2"
    by (simp add: example_props_def p_pageSize_def totalPages_def ceil_div_def ex_rows_len)
  have rows: "data (example_props 3 2) =
      [plain_object [(''id'', JStr ''0''), (''visits'', JNum 0)],
       plain_object [(''id'', JStr ''1''), (''visits'', JNum 1)],
       plain_object [(''id'', JStr ''2''), (''visits'', JNum 2)]]"
    by (simp add: example_props_def example_rows_def upt_rec digit_char_def)
  have flags: "\<not> p_loading (example_props 3 2) \<and> p_pagination (example_props 3 2) \<and>
      p_pageSize (example_props 3 2) = 2"
    by (simp add: example_props_def p_loading_def p_pagination_def p_pageSize_def)
  from rows have nonempty: "data (example_props 3 2) \<noteq> []"
    by simp
  have lt: "totalPages (example_props 3 2) < 5" and pos: "0 < totalPages (example_props 3 2)"
    by (simp_all add: tp)
  from self_correction_same_pass [OF lt pos]
  have state: "snd (render_pass (example_props 3 2) 5) = 1"
    and table: "\<not> p_loading (example_props 3 2) \<and> data (example_props 3 2) \<noteq> [] \<longrightarrow>
      view_table (fst (render_pass (example_props 3 2) 5)) =
        Some (DesktopTableView (example_props 3 2) 1)"
    and keys: "map row_key (body_rows (DesktopTableView (example_props 3 2) 1)) =
      map (\<lambda>r. js_get r ''id'') (paginatedData (example_props 3 2) 1)"
    and slice: "p_pagination (example_props 3 2) \<and> 0 < p_pageSize (example_props 3 2) \<longrightarrow>
      paginatedData (example_props 3 2) 1 =
        take (nat (p_pageSize (example_props 3 2))) (data (example_props 3 2))"
    by blast+
  from slice flags have first: "paginatedData (example_props 3 2) 1 =
      take 2 (data (example_props 3 2))"
    by simp
  from keys have "map row_key (body_rows (DesktopTableView (example_props 3 2) 1)) =
      [JStr ''0'', JStr ''1'']"
    by (simp add: first rows js_get_def plain_object_def)
  with state table first flags nonempty tp show ?thesis
    by simp
qed

section \<open>Loading, empty and cell content\<close>

text \<open>
  C9. While \<open>loading\<close> is true the component renders the loading indicator alone: no card
  layout, no grid layout and no control strip. With \<open>loading\<close> false and an empty record
  list it renders \<open>emptyMessage\<close> alone, again without either layout or the control
  strip, and \<open>totalPages\<close> is 0.
\<close>

theorem loading_and_empty:
  "(p_loading p \<longrightarrow>
      fst (DataTable p currentPage) = LoadingView \<and>
      view_cards (fst (DataTable p currentPage)) = None \<and>
      view_table (fst (DataTable p currentPage)) = None \<and>
      view_strip (fst (DataTable p currentPage)) = None) \<and>
   (\<not> p_loading p \<and> data p = [] \<longrightarrow>
      fst (DataTable p currentPage) = EmptyView (p_emptyMessage p) \<and>
      view_cards (fst (DataTable p currentPage)) = None \<and>
      view_table (fst (DataTable p currentPage)) = None \<and>
      view_strip (fst (DataTable p currentPage)) = None \<and>
      (p_pageSize p \<noteq> 0 \<longrightarrow>
         totalPages p = 0 \<and> PaginationControls p currentPage = None))"
  by (simp add: DataTable_def Let_def totalPages_def ceil_div_def PaginationControls_def)

theorem loading_and_empty_witness:
  "p_loading ((example_props 3 2)\<lparr>loading := Some True\<rparr>) \<and>
   fst (DataTable ((example_props 3 2)\<lparr>loading := Some True\<rparr>) 1) = LoadingView \<and>
   \<not> p_loading (example_props 0 2) \<and> data (example_props 0 2) = [] \<and>
   p_pageSize (example_props 0 2) \<noteq> 0 \<and>
   fst (DataTable (example_props 0 2) 1) = EmptyView ''No data available'' \<and>
   totalPages (example_props 0 2) = 0 \<and>
   PaginationControls (example_props 0 2) 1 = None"
  using loading_and_empty [of "(example_props 3 2)\<lparr>loading := Some True\<rparr>" 1]
    loading_and_empty [of "example_props 0 2" 1]
  by (simp add: example_props_def p_loading_def p_pageSize_def p_emptyMessage_def
      example_rows_def)

lemma js_get_absent:
  "map_of (own_props r) k = None \<Longrightarrow> map_of (proto_props r) k = None \<Longrightarrow>
   js_get r k = JUndefined"
  by (simp add: js_get_def)

lemma js_get_own: "map_of (own_props r) k = Some v \<Longrightarrow> js_get r k = v"
  by (simp add: js_get_def)

text \<open>
  C10. For a column whose accessor is a field selector the cell content is the text
  \<open>String(row[field])\<close>: \<open>null\<close>, \<open>true\<close> and \<open>false\<close> for these values, the string itself
  for a string, the decimal digits (with a minus sign when negative) for a number. Reading
  a field that the record does not have (neither as an own nor as an inherited property),
  or whose value is \<open>undefined\<close>, raises nothing: the cell shows the text \<open>undefined\<close>, the
  same text in every such cell, and not the empty string.
\<close>

theorem field_cell_content:
  assumes "accessor col = Field k"
  shows "getCellContent r col = Text (js_String (js_get r k)) \<and>
         (map_of (own_props r) k = None \<and> map_of (proto_props r) k = None \<longrightarrow>
            getCellContent r col = Text ''undefined'') \<and>
         (map_of (own_props r) k = Some JUndefined \<longrightarrow>
            getCellContent r col = Text ''undefined'') \<and>
         (js_get r k = JUndefined \<longrightarrow>
            getCellContent r col = Text ''undefined'' \<and> getCellContent r col \<noteq> Text []) \<and>
         (js_get r k = JNull \<longrightarrow> getCellContent r col = Text ''null'') \<and>
         (js_get r k = JBool True \<longrightarrow> getCellContent r col = Text ''true'') \<and>
         (js_get r k = JBool False \<longrightarrow> getCellContent r col = Text ''false'') \<and>
         (js_get r k = JStr s \<longrightarrow> getCellContent r col = Text s) \<and>
         (js_get r k = JNum 0 \<longrightarrow> getCellContent r col = Text ''0'') \<and>
         (js_get r k = JNum 42 \<longrightarrow> getCellContent r col = Text ''42'') \<and>
         (js_get r k = JNum (- 7) \<longrightarrow> getCellContent r col = Text ''-7'') \<and>
         (js_get r k = JNum 9876543210 \<longrightarrow> getCellContent r col = Text ''9876543210'')"
proof -
  have content: "getCellContent r col = Text (js_String (js_get r k))"
    using assms by (simp add: getCellContent_def)
  have absent: "map_of (own_props r) k = None \<and> map_of (proto_props r) k = None \<longrightarrow>
      getCellContent r col = Text ''undefined''"
    by (simp add: content js_get_absent)
  have undef: "map_of (own_props r) k = Some JUndefined \<longrightarrow>
      getCellContent r col = Text ''undefined''"
    by (simp add: content js_get_own)
  have nums: "js_String (JNum 0) = ''0''" "js_String (JNum 42) = ''42''"
    "js_String (JNum (- 7)) = ''-7''" "js_String (JNum 9876543210) = ''9876543210''"
    by (simp_all add: digit_char_def)
  from content absent undef nums show ?thesis
    by simp
qed

theorem field_cell_content_witness:
  "accessor (example_columns ! 0) = Field ''id'' \<and>
   getCellContent (plain_object [(''id'', JStr ''p-17'')]) (example_columns ! 0) =
     Text ''p-17'' \<and>
   map_of (own_props (plain_object [(''name'', JStr ''Ada'')])) ''id'' = None \<and>
   map_of (proto_props (plain_object [(''name'', JStr ''Ada'')])) ''id'' = None \<and>
   getCellContent (plain_object [(''name'', JStr ''Ada'')]) (example_columns ! 0) =
     Text ''undefined'' \<and>
   map_of (own_props (plain_object [(''id'', JUndefined)])) ''id'' = Some JUndefined \<and>
   getCellContent (plain_object [(''id'', JUndefined)]) (example_columns ! 0) =
     Text ''undefined'' \<and>
   js_get (plain_object [(''id'', JNum 42)]) ''id'' = JNum 42 \<and>
   getCellContent (plain_object [(''id'', JNum 42)]) (example_columns ! 0) = Text ''42''"
proof -
  have col: "accessor (example_columns ! 0) = Field ''id''"
    by (simp add: example_columns_def)
  have own: "map_of (own_props (plain_object [(''name'', JStr ''Ada'')])) ''id'' = None"
    by (simp add: plain_object_def)
  have inh: "map_of (proto_props (plain_object [(''name'', JStr ''Ada'')])) ''id'' = None"
    by (simp add: plain_object_def object_prototype_def)
  have und: "map_of (own_props (plain_object [(''id'', JUndefined)])) ''id'' = Some JUndefined"
    by (simp add: plain_object_def)
  have num: "js_get (plain_object [(''id'', JNum 42)]) ''id'' = JNum 42"
    by (simp add: plain_object_def js_get_def)
  have str: "js_get (plain_object [(''id'', JStr ''p-17'')]) ''id'' = JStr ''p-17''"
    by (simp add: plain_object_def js_get_def)
  from field_cell_content [OF col, of "plain_object [(''id'', JStr ''p-17'')]" "''p-17''"] str
  have a: "getCellContent (plain_object [(''id'', JStr ''p-17'')]) (example_columns ! 0) =
      Text ''p-17''"
    by blast
  from field_cell_content [OF col, of "plain_object [(''name'', JStr ''Ada'')]"] own inh
  have b: "getCellContent (plain_object [(''name'', JStr ''Ada'')]) (example_columns ! 0) =
      Text ''undefined''"
    by blast
  from field_cell_content [OF col, of "plain_object [(''id'', JUndefined)]"] und
  have c: "getCellContent (plain_object [(''id'', JUndefined)]) (example_columns ! 0) =
      Text ''undefined''"
    by blast
  from field_cell_content [OF col, of "plain_object [(''id'', JNum 42)]"] num
  have d: "getCellContent (plain_object [(''id'', JNum 42)]) (example_columns ! 0) =
      Text ''42''"
    by blast
  from col own inh und num a b c d show ?thesis
    by blast
qed

text \<open>
  A selector that names a property every ordinary object inherits is not absent: the cell
  shows the text of the inherited value.
\<close>

lemma inherited_field_content:
  "accessor col = Field ''toString'' \<Longrightarrow>
   getCellContent (plain_object [(''id'', JStr ''a'')]) col =
     Text ''function toString() { [native code] }''"
  by (simp add: getCellContent_def js_get_def plain_object_def object_prototype_def
      native_function_def)

section \<open>The two layouts\<close>

lemma card_observers:
  "card_highlights
     \<lparr> card_key = k, card_clickable = c,
       card_children = HighlightRegion hs # GridRegion gs #
         (case x of None \<Rightarrow> [] | Some col \<Rightarrow> [ActionsRegion (f col)]) \<rparr> = hs"
  "card_grid
     \<lparr> card_key = k, card_clickable = c,
       card_children = HighlightRegion hs # GridRegion gs #
         (case x of None \<Rightarrow> [] | Some col \<Rightarrow> [ActionsRegion (f col)]) \<rparr> = gs"
  "card_actions
     \<lparr> card_key = k, card_clickable = c,
       card_children = HighlightRegion hs # GridRegion gs #
         (case x of None \<Rightarrow> [] | Some col \<Rightarrow> [ActionsRegion (f col)]) \<rparr> =
     map_option f x"
  by (cases x; simp add: card_highlights_def card_grid_def card_actions_def)+

text \<open>
  C8. The grid layout has one header cell per column, in the order of the column list,
  showing the column's header, and for every record of the current page slice one row
  with one body cell per column, in the same order, whose content is the projection
  \<open>getCellContent\<close> that the card layout uses as well. Setting \<open>hideOnMobile\<close> on columns
  removes no cell: the header and body cells of the grid keep their number and content.
\<close>

theorem desktop_grid_cells:
  "map cell_content (head_cells (DesktopTableView p currentPage)) =
     map (\<lambda>col. Text (header col)) (columns p) \<and>
   map (\<lambda>tr. map cell_content (row_cells tr)) (body_rows (DesktopTableView p currentPage)) =
     map (\<lambda>r. map (getCellContent r) (columns p)) (paginatedData p currentPage) \<and>
   map card_highlights (MobileCardView p currentPage) =
     map (\<lambda>r. map (getCellContent r) (highlight_columns (columns p)))
       (paginatedData p currentPage) \<and>
   map card_grid (MobileCardView p currentPage) =
     map (\<lambda>r. map (\<lambda>col. (header col, getCellContent r col)) (grid_columns (columns p)))
       (paginatedData p currentPage) \<and>
   map card_actions (MobileCardView p currentPage) =
     map (\<lambda>r. map_option (getCellContent r) (actions_column (columns p)))
       (paginatedData p currentPage) \<and>
   map cell_content
     (head_cells (DesktopTableView
        (p\<lparr>columns := map (\<lambda>col. col\<lparr>hideOnMobile := h col\<rparr>) (columns p)\<rparr>) currentPage)) =
     map cell_content (head_cells (DesktopTableView p currentPage)) \<and>
   map (\<lambda>tr. map cell_content (row_cells tr))
     (body_rows (DesktopTableView
        (p\<lparr>columns := map (\<lambda>col. col\<lparr>hideOnMobile := h col\<rparr>) (columns p)\<rparr>) currentPage)) =
     map (\<lambda>tr. map cell_content (row_cells tr)) (body_rows (DesktopTableView p currentPage))"
proof -
  have slice: "paginatedData (p\<lparr>columns := cs\<rparr>) currentPage = paginatedData p currentPage"
    for cs
    by (simp add: paginatedData_def p_pagination_def startIndex_def endIndex_def
        p_pageSize_def)
  have content: "getCellContent r (col\<lparr>hideOnMobile := b\<rparr>) = getCellContent r col"
    for r col b
    by (simp add: getCellContent_def)
  have head: "map cell_content (head_cells (DesktopTableView q currentPage)) =
      map (\<lambda>col. Text (header col)) (columns q)" for q
    by (simp add: DesktopTableView_def comp_def)
  have body: "map (\<lambda>tr. map cell_content (row_cells tr))
      (body_rows (DesktopTableView q currentPage)) =
      map (\<lambda>r. map (getCellContent r) (columns q)) (paginatedData q currentPage)" for q
    by (simp add: DesktopTableView_def comp_def)
  have hl: "map card_highlights (MobileCardView p currentPage) =
      map (\<lambda>r. map (getCellContent r) (highlight_columns (columns p)))
        (paginatedData p currentPage)"
    by (simp add: MobileCardView_def comp_def card_observers)
  have gr: "map card_grid (MobileCardView p currentPage) =
      map (\<lambda>r. map (\<lambda>col. (header col, getCellContent r col)) (grid_columns (columns p)))
        (paginatedData p currentPage)"
    by (simp add: MobileCardView_def comp_def card_observers)
  have ac: "map card_actions (MobileCardView p currentPage) =
      map (\<lambda>r. map_option (getCellContent r) (actions_column (columns p)))
        (paginatedData p currentPage)"
    by (simp add: MobileCardView_def comp_def card_observers)
  from hl gr ac show ?thesis
    by (simp add: head body slice content comp_def)
qed

theorem desktop_grid_cells_witness:
  "map cell_content (head_cells (DesktopTableView (example_props 3 2) 2)) =
     [Text ''Name'', Text ''Visits''] \<and>
   map (\<lambda>tr. map cell_content (row_cells tr))
     (body_rows (DesktopTableView (example_props 3 2) 2)) = [[Text ''2'', Text ''2'']] \<and>
   map (\<lambda>tr. map cell_content (row_cells tr))
     (body_rows (DesktopTableView
        ((example_props 3 2)\<lparr>columns :=
           map (\<lambda>col. col\<lparr>hideOnMobile := Some True\<rparr>) (columns (example_props 3 2))\<rparr>) 2)) =
     [[Text ''2'', Text ''2'']]"
proof -
  have rows: "paginatedData (example_props 3 2) 2 =
      [plain_object [(''id'', JStr ''2''), (''visits'', JNum 2)]]"
    by (simp add: example_props_def paginatedData_def p_pagination_def js_slice_def
      startIndex_def endIndex_def p_pageSize_def example_rows_def upt_rec digit_char_def)
  have cols: "columns (example_props 3 2) = example_columns"
    by (simp add: example_props_def)
  show ?thesis
    using desktop_grid_cells [of "example_props 3 2" 2 "\<lambda>col. Some True"]
    by (simp add: rows cols) (simp add: example_columns_def getCellContent_def js_get_def
      plain_object_def digit_char_def)
qed








section \<open>Navigation\<close>

lemma window_pages_in_range:
  assumes "1 \<le> tot" and "PageNum n \<in> set (getPageNumbers currentPage tot)"
  shows "1 \<le> n \<and> n \<le> tot"
proof (cases "tot \<le> 5")
  case True
  with assms(2) show ?thesis
    by (auto simp add: window_small)
next
  case False
  then have big: "5 < tot"
    by simp
  consider (near_start) "currentPage \<le> 3"
    | (near_end) "3 < currentPage" "tot - 2 \<le> currentPage"
    | (inner) "3 < currentPage" "currentPage < tot - 2"
    by linarith
  then show ?thesis
  proof cases
    case near_start
    with big assms(2) show ?thesis
      by (auto simp add: window_front)
  next
    case near_end
    with big assms(2) show ?thesis
      by (auto simp add: window_back)
  next
    case inner
    with big assms(2) show ?thesis
      by (auto simp add: window_middle)
  qed
qed

lemma find_in_append:
  "find P (xs @ ys) = (case find P xs of None \<Rightarrow> find P ys | Some x \<Rightarrow> Some x)"
  by (induction xs) simp_all

lemma find_jump_enumerate:
  "find (targets (Jump n))
     (map (\<lambda>(index, page).
        case page of
          Ellipsis \<Rightarrow> EllipsisSpan index
        | PageNum m \<Rightarrow> PageButton m (currentPage = m) (\<lambda>_. m))
        (enumerate k pages)) =
   (if PageNum n \<in> set pages then Some (PageButton n (currentPage = n) (\<lambda>_. n)) else None)"
proof (induction pages arbitrary: k)
  case Nil
  show ?case by simp
next
  case (Cons x xs)
  then show ?case
    by (cases x) auto
qed

lemma find_jump_page_controls:
  "find (targets (Jump n)) (page_controls currentPage pages) =
   (if PageNum n \<in> set pages then Some (PageButton n (currentPage = n) (\<lambda>_. n)) else None)"
  unfolding page_controls_def by (rule find_jump_enumerate)

lemma find_nav_enumerate:
  assumes "a \<in> {First, Prev, Next, Last}"
  shows "find (targets a)
     (map (\<lambda>(index, page).
        case page of
          Ellipsis \<Rightarrow> EllipsisSpan index
        | PageNum m \<Rightarrow> PageButton m (currentPage = m) (\<lambda>_. m))
        (enumerate k pages)) = None"
proof (induction pages arbitrary: k)
  case Nil
  show ?case by simp
next
  case (Cons x xs)
  with assms show ?case
    by (cases x; cases a) auto
qed


lemma find_nav_page_controls:
  "a \<in> {First, Prev, Next, Last} \<Longrightarrow> find (targets a) (page_controls currentPage pages) = None"
  unfolding page_controls_def by (rule find_nav_enumerate)

lemma strip_rendered:
  assumes "\<not> p_loading p" and "p_pagination p" and "1 < totalPages p"
  shows "view_controls (fst (DataTable p currentPage)) =
    [NavButton ''First page'' (currentPage = 1) (\<lambda>_. 1),
     NavButton ''Previous page'' (currentPage = 1) (\<lambda>prev. max 1 (prev - 1))]
    @ page_controls currentPage (getPageNumbers currentPage (totalPages p))
    @ [NavButton ''Next page'' (currentPage = totalPages p)
         (\<lambda>prev. min (totalPages p) (prev + 1)),
       NavButton ''Last page'' (currentPage = totalPages p) (\<lambda>_. totalPages p)]"
proof -
  from assms(3) have "data p \<noteq> []"
    by (auto simp add: totalPages_def ceil_div_def)
  with assms show ?thesis
    by (simp add: DataTable_def Let_def PaginationControls_def)
qed

lemma strip_absent:
  assumes "\<not> p_pagination p \<or> totalPages p \<le> 1"
  shows "view_controls (fst (DataTable p currentPage)) = []"
  using assms by (auto simp add: DataTable_def Let_def PaginationControls_def)

lemma click_nav:
  assumes "\<not> p_loading p" and "p_pagination p" and "1 < totalPages p"
  shows "click (fst (DataTable p currentPage)) First currentPage = 1"
    and "click (fst (DataTable p currentPage)) Prev currentPage = max 1 (currentPage - 1)"
    and "click (fst (DataTable p currentPage)) Next currentPage =
      min (totalPages p) (currentPage + 1)"
    and "click (fst (DataTable p currentPage)) Last currentPage = totalPages p"
    and "click (fst (DataTable p currentPage)) (Jump n) currentPage =
      (if PageNum n \<in> set (getPageNumbers currentPage (totalPages p)) then n else currentPage)"
  using assms
  by (simp_all add: click_def strip_rendered find_in_append find_nav_page_controls
      find_jump_page_controls)


lemma find_nav:
  assumes "\<not> p_loading p" and "p_pagination p" and "1 < totalPages p"
  shows "find (targets First) (view_controls (fst (DataTable p currentPage))) =
      Some (NavButton ''First page'' (currentPage = 1) (\<lambda>_. 1))"
    and "find (targets Prev) (view_controls (fst (DataTable p currentPage))) =
      Some (NavButton ''Previous page'' (currentPage = 1) (\<lambda>prev. max 1 (prev - 1)))"
    and "find (targets Next) (view_controls (fst (DataTable p currentPage))) =
      Some (NavButton ''Next page'' (currentPage = totalPages p)
        (\<lambda>prev. min (totalPages p) (prev + 1)))"
    and "find (targets Last) (view_controls (fst (DataTable p currentPage))) =
      Some (NavButton ''Last page'' (currentPage = totalPages p) (\<lambda>_. totalPages p))"
  using assms
  by (simp_all add: strip_rendered find_in_append find_nav_page_controls)

lemma click_in_range:
  assumes "\<not> p_loading p" and "p_pagination p" and "1 < totalPages p"
    and "1 \<le> currentPage" and "currentPage \<le> totalPages p"
  shows "1 \<le> click (fst (DataTable p currentPage)) a currentPage \<and>
    click (fst (DataTable p currentPage)) a currentPage \<le> totalPages p"
proof (cases a)
  case (Jump n)
  show ?thesis
  proof (cases "PageNum n \<in> set (getPageNumbers currentPage (totalPages p))")
    case True
    with assms(3) have "1 \<le> n \<and> n \<le> totalPages p"
      by (intro window_pages_in_range [of _ _ currentPage]) simp_all
    with True assms Jump show ?thesis
      by (simp add: click_nav)
  next
    case False
    with assms Jump show ?thesis
      by (simp add: click_nav)
  qed
qed (use assms in \<open>simp_all add: click_nav\<close>)

lemma click_without_strip:
  assumes "\<not> p_pagination p \<or> totalPages p \<le> 1"
  shows "click (fst (DataTable p currentPage)) a s = s"
  using strip_absent [OF assms] by (simp add: click_def)

text \<open>
  C6. While the control strip is rendered (pagination enabled, more than one page),
  \<open>first\<close> sets \<open>currentPage\<close> to 1, \<open>prev\<close> to \<open>max(1, currentPage - 1)\<close>, \<open>next\<close> to
  \<open>min(totalPages, currentPage + 1)\<close>, \<open>last\<close> to \<open>totalPages\<close>, and \<open>jump(n)\<close> to \<open>n\<close> for the
  page numbers \<open>n\<close> of the window, all of which lie in \<open>[1, totalPages]\<close>; \<open>prev\<close> is disabled
  at page 1 and \<open>next\<close> at the last page, where clicking them changes nothing; and every
  transition from a page in \<open>[1, totalPages]\<close> ends in \<open>[1, totalPages]\<close>. When pagination is
  disabled or \<open>totalPages \<le> 1\<close> no strip is rendered and no action changes the page.
\<close>

theorem navigation_in_range:
  "(\<not> p_loading p \<and> p_pagination p \<and> 1 < totalPages p \<longrightarrow>
      click (fst (DataTable p currentPage)) First currentPage = 1 \<and>
      click (fst (DataTable p currentPage)) Prev currentPage = max 1 (currentPage - 1) \<and>
      click (fst (DataTable p currentPage)) Next currentPage =
        min (totalPages p) (currentPage + 1) \<and>
      click (fst (DataTable p currentPage)) Last currentPage = totalPages p \<and>
      click (fst (DataTable p currentPage)) (Jump n) currentPage =
        (if PageNum n \<in> set (getPageNumbers currentPage (totalPages p))
         then n else currentPage) \<and>
      (PageNum n \<in> set (getPageNumbers currentPage (totalPages p)) \<longrightarrow>
         1 \<le> n \<and> n \<le> totalPages p) \<and>
      find (targets Prev) (view_controls (fst (DataTable p currentPage))) =
        Some (NavButton ''Previous page'' (currentPage = 1) (\<lambda>prev. max 1 (prev - 1))) \<and>
      find (targets Next) (view_controls (fst (DataTable p currentPage))) =
        Some (NavButton ''Next page'' (currentPage = totalPages p)
          (\<lambda>prev. min (totalPages p) (prev + 1))) \<and>
      (currentPage = totalPages p \<longrightarrow>
         click (fst (DataTable p currentPage)) Next currentPage = currentPage) \<and>
      (currentPage = 1 \<longrightarrow>
         click (fst (DataTable p currentPage)) Prev currentPage = currentPage) \<and>
      (1 \<le> currentPage \<and> currentPage \<le> totalPages p \<longrightarrow>
         1 \<le> click (fst (DataTable p currentPage)) a currentPage \<and>
         click (fst (DataTable p currentPage)) a currentPage \<le> totalPages p)) \<and>
   (p_pageSize p \<noteq> 0 \<and> (\<not> p_pagination p \<or> totalPages p \<le> 1) \<longrightarrow>
      PaginationControls p currentPage = None \<and>
      view_controls (fst (DataTable p currentPage)) = [] \<and>
      click (fst (DataTable p currentPage)) a currentPage = currentPage)"
proof (intro conjI impI)
  assume h: "\<not> p_loading p \<and> p_pagination p \<and> 1 < totalPages p"
  assume "PageNum n \<in> set (getPageNumbers currentPage (totalPages p))"
  with h show "1 \<le> n" and "n \<le> totalPages p"
    using window_pages_in_range [of "totalPages p" n currentPage] by simp_all
next
  assume h: "\<not> p_loading p \<and> p_pagination p \<and> 1 < totalPages p"
  assume r: "1 \<le> currentPage \<and> currentPage \<le> totalPages p"
  from h r show "1 \<le> click (fst (DataTable p currentPage)) a currentPage"
    and "click (fst (DataTable p currentPage)) a currentPage \<le> totalPages p"
    using click_in_range [of p currentPage a] by simp_all
next
  assume "p_pageSize p \<noteq> 0 \<and> (\<not> p_pagination p \<or> totalPages p \<le> 1)"
  then show "PaginationControls p currentPage = None"
    by (auto simp add: PaginationControls_def)
qed (simp_all add: click_nav find_nav strip_absent click_without_strip)

theorem navigation_in_range_witness:
  "\<not> p_loading (example_props 5 2) \<and> p_pagination (example_props 5 2) \<and>
   totalPages (example_props 5 2) = 3 \<and>
   click (fst (DataTable (example_props 5 2) 2)) First 2 = 1 \<and>
   click (fst (DataTable (example_props 5 2) 2)) Prev 2 = 1 \<and>
   click (fst (DataTable (example_props 5 2) 2)) Next 2 = 3 \<and>
   click (fst (DataTable (example_props 5 2) 2)) Last 2 = 3 \<and>
   PageNum 3 \<in> set (getPageNumbers 2 3) \<and>
   click (fst (DataTable (example_props 5 2) 2)) (Jump 3) 2 = 3 \<and>
   click (fst (DataTable (example_props 5 2) 3)) Next 3 = 3 \<and>
   click (fst (DataTable (example_props 5 2) 1)) Prev 1 = 1 \<and>
   p_pageSize (example_props 2 2) \<noteq> 0 \<and> totalPages (example_props 2 2) \<le> 1 \<and>
   click (fst (DataTable (example_props 2 2) 1)) Next 1 = 1"
proof -
  have l: "\<not> p_loading (example_props n sz)" for n sz
    by (simp add: example_props_def p_loading_def)
  have g: "p_pagination (example_props n sz)" for n sz
    by (simp add: example_props_def p_pagination_def)
  have tp: "totalPages (example_props 5 2) = 3"
    by (simp add: example_props_def p_pageSize_def totalPages_def ceil_div_def ex_rows_len)
  have tq: "totalPages (example_props 2 2) = 1"
    by (simp add: example_props_def p_pageSize_def totalPages_def ceil_div_def ex_rows_len)
  have w: "getPageNumbers 2 3 = [PageNum 1, PageNum 2, PageNum 3]"
    by (simp add: window_small upto.simps)
  show ?thesis
    using navigation_in_range [of "example_props 5 2" 2 3 Next]
      navigation_in_range [of "example_props 5 2" 3 3 Next]
      navigation_in_range [of "example_props 5 2" 1 3 Prev]
      navigation_in_range [of "example_props 2 2" 1 3 Next]
    by (simp add: l g tp tq w) (simp add: example_props_def p_pageSize_def)
qed

end
